theory Spec2Isabelle
  imports Complex_Main "HOL-Library.Char_ord" "HOL-Library.List_Lexorder" "HOL-Library.Sublist"
begin

section \<open>Numbers\<close>

text \<open>
  The TypeScript sources compute with the type \<open>number\<close>. Finite numbers are modelled as
  \<^typ>\<open>real\<close> with exact arithmetic. The only way the indicator code can leave the finite
  numbers from finite inputs is a division by zero (JavaScript then yields \<open>NaN\<close> or an
  infinity); that outcome is a value of its own, \<open>NonFinite\<close>, so that no division by zero
  hides behind the convention \<open>x / 0 = 0\<close> of HOL.
\<close>

datatype nonfinite = NonFinite

definition js_div :: "real \<Rightarrow> real \<Rightarrow> nonfinite + real" where
  "js_div a b = (if b = 0 then Inl NonFinite else Inr (a / b))"

text \<open>
  \<open>parseFloat(x.toFixed(2))\<close>: the nearest multiple of \<open>1/100\<close>, the larger one on a tie.
\<close>

definition toFixed2 :: "real \<Rightarrow> real" where
  "toFixed2 x = real_of_int (round (x * 100)) / 100"

section \<open>Indicator engine (binance.ts)\<close>

text \<open>
  \<open>for (let i = 1; i < closes.length; i++) changes.push(closes[i] - closes[i - 1])\<close>
\<close>

fun changes :: "real list \<Rightarrow> real list" where
  "changes (a # b # xs) = (b - a) # changes (b # xs)"
| "changes [a] = []"
| "changes [] = []"

text \<open>
  The loop of the initial averages, run over \<open>changes[0 .. period - 1]\<close>; the state is
  \<open>(gainSum, lossSum)\<close>.
\<close>

fun initial_sums :: "real list \<Rightarrow> real \<times> real \<Rightarrow> real \<times> real" where
  "initial_sums [] acc = acc"
| "initial_sums (change # rest) (gainSum, lossSum) =
     (if change > 0 then initial_sums rest (gainSum + change, lossSum)
      else initial_sums rest (gainSum, lossSum - change))"

text \<open>
  Wilder's smoothing, run over \<open>changes[period ..]\<close>; the state is \<open>(avgGain, avgLoss)\<close>.
\<close>

fun smoothing :: "nat \<Rightarrow> real list \<Rightarrow> real \<times> real \<Rightarrow> nonfinite + real \<times> real" where
  "smoothing period [] avgs = Inr avgs"
| "smoothing period (change # rest) (avgGain, avgLoss) =
     (let gain = (if change > 0 then change else 0);
          loss = (if change < 0 then - change else 0)
      in case js_div (avgGain * (real period - 1) + gain) (real period) of
           Inl e \<Rightarrow> Inl e
         | Inr avgGain' \<Rightarrow>
             (case js_div (avgLoss * (real period - 1) + loss) (real period) of
                Inl e \<Rightarrow> Inl e
              | Inr avgLoss' \<Rightarrow> smoothing period rest (avgGain', avgLoss')))"

text \<open>
  The pair \<open>(avgGain, avgLoss)\<close> that \<open>wilderRSI\<close> holds when it reaches the test
  \<open>avgLoss === 0\<close>; the caller has checked \<open>closes.length >= period + 1\<close>.
\<close>

definition wilder_averages :: "real list \<Rightarrow> nat \<Rightarrow> nonfinite + real \<times> real" where
  "wilder_averages closes period =
     (case initial_sums (take period (changes closes)) (0, 0) of
        (gainSum, lossSum) \<Rightarrow>
          (case js_div gainSum (real period) of
             Inl e \<Rightarrow> Inl e
           | Inr avgGain \<Rightarrow>
               (case js_div lossSum (real period) of
                  Inl e \<Rightarrow> Inl e
                | Inr avgLoss \<Rightarrow>
                    smoothing period (drop period (changes closes)) (avgGain, avgLoss))))"

text \<open>
  \<open>function wilderRSI(closes: number[], period: number = 14): number | null\<close>.
  \<open>Inr None\<close> is \<open>null\<close>, \<open>Inr (Some r)\<close> the number \<open>r\<close>, \<open>Inl NonFinite\<close> a result
  reached through a division by zero.
\<close>

definition wilderRSI :: "real list \<Rightarrow> nat \<Rightarrow> nonfinite + real option" where
  "wilderRSI closes period =
     (if length closes < period + 1 then Inr None
      else case wilder_averages closes period of
             Inl e \<Rightarrow> Inl e
           | Inr (avgGain, avgLoss) \<Rightarrow>
               if avgLoss = 0 then Inr (Some 100)
               else (case js_div avgGain avgLoss of
                       Inl e \<Rightarrow> Inl e
                     | Inr rs \<Rightarrow>
                         (case js_div 100 (1 + rs) of
                            Inl e \<Rightarrow> Inl e
                          | Inr q \<Rightarrow>
                              (let rsi = toFixed2 (100 - q)
                               in if rsi < 0 \<or> rsi > 100 then Inr None
                                  else Inr (Some rsi)))))"

datatype Signal = STRONG_BUY | BUY | NEUTRAL | SELL | STRONG_SELL

text \<open>
  JavaScript truthiness of a \<open>number | null\<close>: \<open>null\<close> and \<open>0\<close> are falsy.
\<close>

definition falsy :: "real option \<Rightarrow> bool" where
  "falsy v = (case v of None \<Rightarrow> True | Some r \<Rightarrow> r = 0)"

text \<open>\<open>function getRSISignal(rsi: number | null)\<close>, with its guard \<open>if (!rsi)\<close>.\<close>

definition getRSISignal :: "real option \<Rightarrow> Signal" where
  "getRSISignal rsi =
     (if falsy rsi then NEUTRAL
      else case rsi of
             None \<Rightarrow> NEUTRAL
           | Some r \<Rightarrow>
               if r \<le> 20 then STRONG_BUY
               else if r \<le> 30 then BUY
               else if r \<ge> 80 then STRONG_SELL
               else if r \<ge> 70 then SELL
               else NEUTRAL)"

section \<open>JavaScript containers\<close>

text \<open>
  A \<open>Map<K, V>\<close> is an association list with distinct keys, in insertion order:
  \<open>set\<close> of a present key replaces its value in place, \<open>set\<close> of a new key appends.
\<close>

definition jsmap_get :: "('k \<times> 'v) list \<Rightarrow> 'k \<Rightarrow> 'v option" where
  "jsmap_get m k = map_of m k"

fun jsmap_set :: "'k \<Rightarrow> 'v \<Rightarrow> ('k \<times> 'v) list \<Rightarrow> ('k \<times> 'v) list" where
  "jsmap_set k v [] = [(k, v)]"
| "jsmap_set k v ((k', v') # m) =
     (if k' = k then (k, v) # m else (k', v') # jsmap_set k v m)"

definition jsmap_delete :: "'k \<Rightarrow> ('k \<times> 'v) list \<Rightarrow> ('k \<times> 'v) list" where
  "jsmap_delete k m = filter (\<lambda>kv. fst kv \<noteq> k) m"

definition jsmap_values :: "('k \<times> 'v) list \<Rightarrow> 'v list" where
  "jsmap_values m = map snd m"

definition jsmap_size :: "('k \<times> 'v) list \<Rightarrow> nat" where
  "jsmap_size m = length m"

text \<open>
  A \<open>Set<T>\<close> is a list without repetition, in insertion order; \<open>new Set(array)\<close> adds
  the elements of the array from left to right.
\<close>

definition jsset_add :: "'a \<Rightarrow> 'a list \<Rightarrow> 'a list" where
  "jsset_add x s = (if x \<in> set s then s else s @ [x])"

definition new_Set :: "'a list \<Rightarrow> 'a list" where
  "new_Set xs = fold jsset_add xs []"



text \<open>\<open>array.slice(start, end)\<close> for \<open>0 \<le> start\<close> and an integer \<open>end\<close>.\<close>

definition slice :: "nat \<Rightarrow> int \<Rightarrow> 'a list \<Rightarrow> 'a list" where
  "slice start end xs =
     (let e = (if end < 0 then nat (int (length xs) + end) else min (nat end) (length xs))
      in take (e - start) (drop start xs))"







section \<open>The stream manager (websocket.ts)\<close>

subsection \<open>Data\<close>

record TradingPair =
  symbol :: string
  price :: real
  volume24h :: real
  change24h :: real
  high24h :: real
  low24h :: real
  rsi1h :: "real option"
  rsi4h :: "real option"
  rsi1d :: "real option"
  signal :: Signal

text \<open>An entry of \<open>KlineHistory[symbol][interval]\<close>.\<close>

record candle =
  close :: real
  timestamp :: int

type_synonym history = "string \<rightharpoonup> (string \<rightharpoonup> candle list)"


datatype WebSocket = WebSocket (url: string)

text \<open>The callbacks the manager hands to \<open>setTimeout\<close> and \<open>setInterval\<close>.\<close>

datatype task =
    Reconnect string
  | Volume_check
  | Fallback_RSI "string list"

text \<open>A timer handle: the delay in milliseconds and the callback.\<close>

datatype Timeout = Timeout (delay: nat) (callback: task)

text \<open>What the manager does to the outside, in the order it does it.\<close>

datatype effect =
    New_ws WebSocket
  | Close_ws WebSocket
  | Set_timeout Timeout
  | Set_interval Timeout
  | Clear_timeout Timeout

text \<open>
  Objects of type \<open>TradingPair\<close> are held by reference: the two data maps store
  references, and so do the arrays the queries return. \<open>heap\<close> gives the object at a
  reference.
\<close>

type_synonym ref = nat

record manager =
  spotTickerWs :: "WebSocket option"
  futuresTickerWs :: "WebSocket option"
  heap :: "ref \<Rightarrow> TradingPair"
  spotData :: "(string \<times> ref) list"
  futuresData :: "(string \<times> ref) list"
  klineHistory :: history
  reconnectTimeouts :: "(string \<times> Timeout) list"
  initialized :: bool
  currentTopSymbols :: "string list"
  klineStreamMap :: "(string \<times> WebSocket) list"
  volumeCheckInterval :: "Timeout option"
  effects :: "effect list"

definition maxReconnectDelay :: nat where
  "maxReconnectDelay = 30000"

definition initialReconnectDelay :: nat where
  "initialReconnectDelay = 1000"


text \<open>
  The answers of the exchange's REST endpoint and the clock: \<open>fetch_klines symbol interval\<close>
  is \<open>None\<close> when the request fails or the response is not \<open>ok\<close>, and otherwise the
  closes \<open>parseFloat(k[4])\<close> of the klines it returned; \<open>now\<close> is \<open>Date.now()\<close>.
\<close>

record env =
  fetch_klines :: "string \<Rightarrow> string \<Rightarrow> real list option"
  now :: int

definition do_effect :: "effect \<Rightarrow> manager \<Rightarrow> manager" where
  "do_effect e m = m\<lparr>effects := effects m @ [e]\<rparr>"

subsection \<open>Ticker connections and reconnect\<close>

definition spot_url :: string where
  "spot_url = ''wss://stream.binance.com:9443/ws/!ticker@arr''"

definition futures_url :: string where
  "futures_url = ''wss://fstream.binance.com/ws/!ticker@arr''"

definition connectSpotTicker :: "manager \<Rightarrow> manager" where
  "connectSpotTicker m =
     do_effect (New_ws (WebSocket spot_url)) (m\<lparr>spotTickerWs := Some (WebSocket spot_url)\<rparr>)"

definition connectFuturesTicker :: "manager \<Rightarrow> manager" where
  "connectFuturesTicker m =
     do_effect (New_ws (WebSocket futures_url))
       (m\<lparr>futuresTickerWs := Some (WebSocket futures_url)\<rparr>)"

text \<open>
  \<open>scheduleReconnect(type, reconnectFn)\<close>; the exponent is \<open>this.reconnectTimeouts.size\<close>.
\<close>

definition reconnect_delay :: "manager \<Rightarrow> nat" where
  "reconnect_delay m =
     min (initialReconnectDelay * 2 ^ jsmap_size (reconnectTimeouts m)) maxReconnectDelay"

definition scheduleReconnect :: "string \<Rightarrow> manager \<Rightarrow> manager" where
  "scheduleReconnect type m =
     (let timeout = Timeout (reconnect_delay m) (Reconnect type);
          m1 = do_effect (Set_timeout timeout) m
      in m1\<lparr>reconnectTimeouts := jsmap_set type timeout (reconnectTimeouts m1)\<rparr>)"

definition clearReconnectTimeout :: "string \<Rightarrow> manager \<Rightarrow> manager" where
  "clearReconnectTimeout type m =
     (case jsmap_get (reconnectTimeouts m) type of
        None \<Rightarrow> m
      | Some timeout \<Rightarrow>
          (let m1 = do_effect (Clear_timeout timeout) m
           in m1\<lparr>reconnectTimeouts := jsmap_delete type (reconnectTimeouts m1)\<rparr>))"

text \<open>
  What happens to a ticker connection, seen from the manager: its socket opens (the
  \<open>'open'\<close> handler runs), its socket closes (the \<open>'close'\<close> handler runs; a failed
  open ends in \<open>'close'\<close> without \<open>'open'\<close>), or its pending reconnect timer fires
  (\<open>reconnectFn\<close> runs).
\<close>

datatype event = Opened string | Closed string | Timer_fired string

fun ticker_event :: "event \<Rightarrow> manager \<Rightarrow> manager" where
  "ticker_event (Opened type) m = clearReconnectTimeout type m"
| "ticker_event (Closed type) m = scheduleReconnect type m"
| "ticker_event (Timer_fired type) m =
     (if type = ''spot-ticker'' then connectSpotTicker m else connectFuturesTicker m)"

text \<open>The connection an event belongs to.\<close>

fun connection :: "event \<Rightarrow> string" where
  "connection (Opened type) = type"
| "connection (Closed type) = type"
| "connection (Timer_fired type) = type"

text \<open>The delays of the reconnects scheduled so far, oldest first.\<close>

fun scheduled_delays :: "effect list \<Rightarrow> nat list" where
  "scheduled_delays [] = []"
| "scheduled_delays (Set_timeout (Timeout d (Reconnect type)) # es) = d # scheduled_delays es"
| "scheduled_delays (e # es) = scheduled_delays es"

subsection \<open>Candle history\<close>


text \<open>
  The body of the loop of \<open>getRSIForSymbol\<close> for one interval: \<open>klines\<close> is
  \<open>this.klineHistory[symbol][interval]\<close> (\<open>None\<close> for \<open>undefined\<close>), \<open>currentPrice\<close> the
  optional argument.
\<close>

definition interval_rsi :: "candle list option \<Rightarrow> real option \<Rightarrow> real option" where
  "interval_rsi klines currentPrice =
     (case klines of
        None \<Rightarrow> None
      | Some ks \<Rightarrow>
          if length ks \<ge> 14 then
            (let closes = map close ks;
                 closes = (case currentPrice of None \<Rightarrow> closes | Some p \<Rightarrow> closes @ [p])
             in case wilderRSI closes 14 of
                  Inr (Some rsi) \<Rightarrow> if rsi \<ge> 0 \<and> rsi \<le> 100 then Some rsi else None
                | Inr None \<Rightarrow> None
                | Inl e \<Rightarrow> None)
          else None)"

text \<open>\<open>getRSIForSymbol\<close> returns \<open>{rsi1h, rsi4h, rsi1d}\<close>, here a triple in that order.\<close>

definition getRSIForSymbol ::
  "manager \<Rightarrow> string \<Rightarrow> real option \<Rightarrow> real option \<times> real option \<times> real option" where
  "getRSIForSymbol m symb currentPrice =
     (case klineHistory m symb of
        None \<Rightarrow> (None, None, None)
      | Some h \<Rightarrow>
          (interval_rsi (h ''1h'') currentPrice,
           interval_rsi (h ''4h'') currentPrice,
           interval_rsi (h ''1d'') currentPrice))"

subsection \<open>Fallback over REST\<close>

text \<open>
  \<open>closes.map((close, index) => ({close, timestamp: Date.now() - (closes.length - 1 - index) * 3600000}))\<close>
\<close>

definition stamped :: "env \<Rightarrow> real list \<Rightarrow> candle list" where
  "stamped env closes =
     map (\<lambda>(index, c).
            \<lparr>close = c,
             timestamp = now env - (int (length closes) - 1 - int index) * 3600000\<rparr>)
       (enumerate 0 closes)"

text \<open>The body of the loop of \<open>calculateRSIViaREST\<close> for one interval.\<close>

definition rest_interval :: "env \<Rightarrow> string \<Rightarrow> string \<Rightarrow> history \<Rightarrow> history" where
  "rest_interval env symb key hist =
     (case fetch_klines env symb key of
        None \<Rightarrow> hist
      | Some closes \<Rightarrow>
          if length closes \<ge> 15 then
            (case wilderRSI closes 14 of
               Inr (Some rsi) \<Rightarrow>
                 if rsi \<ge> 0 \<and> rsi \<le> 100 then
                   (let bySymbol = (case hist symb of None \<Rightarrow> Map.empty | Some h \<Rightarrow> h)
                    in hist(symb \<mapsto> bySymbol(key \<mapsto> stamped env closes)))
                 else hist
             | Inr None \<Rightarrow> hist
             | Inl e \<Rightarrow> hist)
          else hist)"

definition calculateRSIViaREST :: "env \<Rightarrow> string \<Rightarrow> manager \<Rightarrow> manager" where
  "calculateRSIViaREST env symb m =
     m\<lparr>klineHistory := fold (rest_interval env symb) [''1h'', ''4h'', ''1d''] (klineHistory m)\<rparr>"

subsection \<open>Rebalancing the candle streams\<close>

text \<open>\<open>array.sort((a, b) => b.volume24h - a.volume24h)\<close>: a stable sort, largest volume first.\<close>

definition sort_by_volume :: "(ref \<Rightarrow> TradingPair) \<Rightarrow> ref list \<Rightarrow> ref list" where
  "sort_by_volume h pairs = sort_key (\<lambda>r. - volume24h (h r)) pairs"












subsection \<open>Life cycle and queries\<close>

definition startVolumeMonitoring :: "manager \<Rightarrow> manager" where
  "startVolumeMonitoring m =
     (let m1 = do_effect (Set_interval (Timeout 10000 Volume_check)) m;
          m2 = m1\<lparr>volumeCheckInterval := Some (Timeout 10000 Volume_check)\<rparr>
      in do_effect (Set_timeout (Timeout 5000 Volume_check)) m2)"

definition initialize :: "manager \<Rightarrow> manager" where
  "initialize m =
     (if initialized m then m
      else startVolumeMonitoring
             (connectFuturesTicker (connectSpotTicker (m\<lparr>initialized := True\<rparr>))))"

text \<open>
  The body of the callback that \<open>ensureRSIForCoins\<close> maps over the coins: the REST
  fallback for the coin's symbol, then the write of the new RSI values and signal into
  the coin object itself.
\<close>

definition update_coin :: "env \<Rightarrow> ref \<Rightarrow> manager \<Rightarrow> manager" where
  "update_coin env coin m =
     (let m1 = calculateRSIViaREST env (symbol (heap m coin)) m;
          c = heap m1 coin
      in case getRSIForSymbol m1 (symbol c) (Some (price c)) of
           (r1h, r4h, r1d) \<Rightarrow>
             m1\<lparr>heap := (heap m1)
                  (coin := c\<lparr>rsi1h := r1h, rsi4h := r4h, rsi1d := r1d,
                              signal := getRSISignal r1d\<rparr>)\<rparr>)"

text \<open>
  The callbacks run as promises under \<open>Promise.all\<close>; each touches the history of its
  own symbol and its own coin object only, and the coins of one data map have distinct
  symbols, so they are run here one after the other.
\<close>

definition ensureRSIForCoins :: "env \<Rightarrow> ref list \<Rightarrow> manager \<Rightarrow> manager" where
  "ensureRSIForCoins env coins m =
     (let coinsNeedingRSI =
            filter (\<lambda>coin. rsi1h (heap m coin) = None \<or> rsi4h (heap m coin) = None
                              \<or> rsi1d (heap m coin) = None) coins
      in if length coinsNeedingRSI = 0 then m
         else fold (update_coin env) coinsNeedingRSI m)"

text \<open>
  \<open>getSpotData(limit)\<close> and \<open>getFuturesData(limit)\<close> return the array \<open>sortedData\<close> of
  references, with the manager as the call leaves it.
\<close>

definition getSpotData :: "env \<Rightarrow> int \<Rightarrow> manager \<Rightarrow> ref list \<times> manager" where
  "getSpotData env limit m =
     (let m1 = (if \<not> initialized m then initialize m else m);
          sortedData = slice 0 limit (sort_by_volume (heap m1) (jsmap_values (spotData m1)))
      in (sortedData, ensureRSIForCoins env sortedData m1))"

definition getFuturesData :: "env \<Rightarrow> int \<Rightarrow> manager \<Rightarrow> ref list \<times> manager" where
  "getFuturesData env limit m =
     (let m1 = (if \<not> initialized m then initialize m else m);
          sortedData = slice 0 limit (sort_by_volume (heap m1) (jsmap_values (futuresData m1)))
      in (sortedData, ensureRSIForCoins env sortedData m1))"

text \<open>The manager as its constructor leaves it; no \<open>TradingPair\<close> object exists yet.\<close>

definition blank_pair :: TradingPair where
  "blank_pair =
     \<lparr>symbol = [], price = 0, volume24h = 0, change24h = 0, high24h = 0, low24h = 0,
      rsi1h = None, rsi4h = None, rsi1d = None, signal = NEUTRAL\<rparr>"

definition new_manager :: manager where
  "new_manager =
     \<lparr>spotTickerWs = None, futuresTickerWs = None, heap = (\<lambda>r. blank_pair),
      spotData = [], futuresData = [], klineHistory = Map.empty, reconnectTimeouts = [],
      initialized = False, currentTopSymbols = [], klineStreamMap = [],
      volumeCheckInterval = None, effects = []\<rparr>"

subsection \<open>Views used in the statements\<close>

text \<open>
  The candles stored for a symbol and an interval, \<open>[]\<close> when the symbol or the interval
  has no entry.
\<close>

definition stored :: "manager \<Rightarrow> string \<Rightarrow> string \<Rightarrow> candle list" where
  "stored m symb interval =
     (case klineHistory m symb of
        None \<Rightarrow> []
      | Some h \<Rightarrow> (case h interval of None \<Rightarrow> [] | Some ks \<Rightarrow> ks))"



text \<open>The fields of a \<open>TradingPair\<close> that come from the ticker.\<close>

definition ticker_fields :: "TradingPair \<Rightarrow> string \<times> real \<times> real \<times> real \<times> real \<times> real" where
  "ticker_fields p = (symbol p, price p, volume24h p, change24h p, high24h p, low24h p)"

text \<open>The filter of \<open>ensureRSIForCoins\<close>: an entry that lacks one of its RSI values.\<close>

definition needs_rsi :: "TradingPair \<Rightarrow> bool" where
  "needs_rsi p = (rsi1h p = None \<or> rsi4h p = None \<or> rsi1d p = None)"

text \<open>The life-cycle state of the manager: everything but the three stores.\<close>

definition lifecycle ::
  "manager \<Rightarrow> bool \<times> WebSocket option \<times> WebSocket option \<times> (string \<times> Timeout) list
     \<times> string list \<times> (string \<times> WebSocket) list \<times> Timeout option \<times> effect list" where
  "lifecycle m =
     (initialized m, spotTickerWs m, futuresTickerWs m, reconnectTimeouts m,
      currentTopSymbols m, klineStreamMap m, volumeCheckInterval m, effects m)"

text \<open>
  What an assignment \<open>entry.price = v\<close> by a caller does, \<open>entry\<close> being an element of an
  array that a query returned.
\<close>

definition assign_price :: "ref \<Rightarrow> real \<Rightarrow> manager \<Rightarrow> manager" where
  "assign_price entry v m = m\<lparr>heap := (heap m)(entry := (heap m entry)\<lparr>price := v\<rparr>)\<rparr>"

text \<open>The store's entry for a symbol of the spot segment, as a reader of the store sees it.\<close>

definition spot_entry :: "manager \<Rightarrow> string \<Rightarrow> TradingPair option" where
  "spot_entry m symb = map_option (heap m) (jsmap_get (spotData m) symb)"

text \<open>
  The order that the specification gives to \<open>list(segment, limit)\<close>: volume descending,
  symbol ascending among equal volumes.
\<close>

definition spec_list_order :: "TradingPair \<Rightarrow> TradingPair \<Rightarrow> bool" where
  "spec_list_order a b =
     (volume24h a > volume24h b \<or> (volume24h a = volume24h b \<and> symbol a \<le> symbol b))"

subsection \<open>Example states\<close>

text \<open>The manager after \<open>initialize()\<close>, before any message has arrived.\<close>

definition started :: manager where
  "started = initialize new_manager"


text \<open>
  A manager with two spot entries and one futures entry, one candle connection open for
  the symbol it tracks, and the same manager tracking both symbols already.
\<close>

definition pair_of :: "string \<Rightarrow> real \<Rightarrow> TradingPair" where
  "pair_of s v = blank_pair\<lparr>symbol := s, price := 1, volume24h := v\<rparr>"



text \<open>
  An exchange whose REST endpoint is out of reach, and one that answers every request
  with the same 15 rising closes.
\<close>

definition offline :: env where
  "offline = \<lparr>fetch_klines = (\<lambda>symb interval. None), now = 0\<rparr>"

definition rising :: env where
  "rising =
     \<lparr>fetch_klines =
        (\<lambda>symb interval. Some [1, 2, 3, 4, 5, 6, 7, 8, 9, 10, 11, 12, 13, 14, 15]),
      now = 0\<rparr>"

text \<open>
  A spot store with two entries of equal volume, inserted in the order \<open>BUSDT\<close>, \<open>AUSDT\<close>,
  and a third of smaller volume; every entry has its RSI values.
\<close>

definition rated :: "string \<Rightarrow> real \<Rightarrow> TradingPair" where
  "rated s v = (pair_of s v)\<lparr>rsi1h := Some 50, rsi4h := Some 50, rsi1d := Some 50\<rparr>"

definition tied_store :: manager where
  "tied_store =
     started
       \<lparr>heap := (\<lambda>r. blank_pair)
                  (0 := rated ''BUSDT'' 1, 1 := rated ''AUSDT'' 1, 2 := rated ''CUSDT'' 0),
        spotData := [(''BUSDT'', 0), (''AUSDT'', 1), (''CUSDT'', 2)]\<rparr>"

text \<open>
  An initialized manager that holds one spot entry without RSI values, as a first ticker
  leaves it: no candle of the symbol is stored yet.
\<close>

definition unrated_store :: manager where
  "unrated_store =
     started
       \<lparr>heap := (\<lambda>r. blank_pair)(0 := (pair_of ''AUSDT'' 1)\<lparr>price := 16\<rparr>),
        spotData := [(''AUSDT'', 0)]\<rparr>"

section \<open>The started manager\<close>

lemma started_fields:
  "heap started = (\<lambda>r. blank_pair)" "spotData started = []" "futuresData started = []"
  "klineHistory started = Map.empty" "reconnectTimeouts started = []" "initialized started"
  "currentTopSymbols started = []" "klineStreamMap started = []"
  "effects started =
     [New_ws (WebSocket spot_url), New_ws (WebSocket futures_url),
      Set_interval (Timeout 10000 Volume_check), Set_timeout (Timeout 5000 Volume_check)]"
  by (simp_all add: started_def initialize_def new_manager_def startVolumeMonitoring_def
      connectFuturesTicker_def connectSpotTicker_def do_effect_def Let_def)

section \<open>Properties of the indicator engine\<close>

lemma getRSISignal_Some:
  "getRSISignal (Some r) =
     (if r = 0 then NEUTRAL else if r \<le> 20 then STRONG_BUY else if r \<le> 30 then BUY
      else if r \<ge> 80 then STRONG_SELL else if r \<ge> 70 then SELL else NEUTRAL)"
  by (simp add: getRSISignal_def falsy_def)

lemma getRSISignal_None: "getRSISignal None = NEUTRAL"
  by (simp add: getRSISignal_def falsy_def)

lemma getRSISignal_table:
  "getRSISignal (Some 20) = STRONG_BUY \<and> getRSISignal (Some (2001 / 100)) = BUY
   \<and> getRSISignal (Some 30) = BUY \<and> getRSISignal (Some (3001 / 100)) = NEUTRAL
   \<and> getRSISignal (Some (6999 / 100)) = NEUTRAL \<and> getRSISignal (Some 70) = SELL
   \<and> getRSISignal (Some (7999 / 100)) = SELL \<and> getRSISignal (Some 80) = STRONG_SELL
   \<and> getRSISignal None = NEUTRAL"
  by (simp add: getRSISignal_Some getRSISignal_None)

lemma getRSISignal_neutral_iff:
  "getRSISignal (Some x) = NEUTRAL \<longleftrightarrow> x = 0 \<or> (30 < x \<and> x < 70)"
  by (simp add: getRSISignal_Some)

lemma getRSISignal_strong_buy_iff:
  "getRSISignal (Some x) = STRONG_BUY \<longleftrightarrow> x \<le> 20 \<and> x \<noteq> 0"
  by (simp add: getRSISignal_Some)

text \<open>
  C2. The claim: every defined oscillator value \<open>x\<close> with \<open>0 \<le> x \<le> 20\<close> is classified
  \<open>STRONG_BUY\<close>, the value \<open>0\<close> included, which is not to be treated as absent.
  The code classifies the defined value \<open>0\<close> as \<open>NEUTRAL\<close>: the guard \<open>if (!rsi)\<close> takes
  \<open>0\<close> for \<open>null\<close>. The value \<open>0\<close> is one that \<open>wilderRSI\<close> returns, on falling closes.
\<close>

theorem getRSISignal_zero:
  "wilderRSI [15, 14, 13, 12, 11, 10, 9, 8, 7, 6, 5, 4, 3, 2, 1] 14 = Inr (Some 0)
   \<and> getRSISignal (Some 0) = NEUTRAL"
  by (simp add: getRSISignal_def falsy_def wilderRSI_def wilder_averages_def js_div_def
      toFixed2_def)

text \<open>
  C3. The claim: the boundary table of \<open>classifySignal\<close> holds and, for a defined input
  \<open>x\<close>, the result is \<open>NEUTRAL\<close> only in the band \<open>30 < x < 70\<close>. The table holds
  (\<open>getRSISignal_table\<close>); the band does not: the defined input \<open>0\<close> lies outside it and is
  classified \<open>NEUTRAL\<close> all the same.
\<close>

theorem getRSISignal_neutral_outside_band:
  "getRSISignal (Some 0) = NEUTRAL \<and> \<not> (30 < (0::real) \<and> (0::real) < 70)"
  by (simp add: getRSISignal_def falsy_def)








lemma length_changes: "length (changes xs) = length xs - 1"
  by (induction xs rule: changes.induct) simp_all

lemma changes_increasing:
  "sorted_wrt (<) closes \<Longrightarrow> c \<in> set (changes closes) \<Longrightarrow> 0 < c"
  by (induction closes rule: changes.induct) auto

lemma changes_decreasing:
  "sorted_wrt (>) closes \<Longrightarrow> c \<in> set (changes closes) \<Longrightarrow> c < 0"
  by (induction closes rule: changes.induct) auto

lemma initial_sums_gains:
  "(\<And>c. c \<in> set xs \<Longrightarrow> 0 < c) \<Longrightarrow> snd (initial_sums xs (g, l)) = l"
  by (induction xs arbitrary: g l) simp_all

lemma initial_sums_losses:
  "(\<And>c. c \<in> set xs \<Longrightarrow> c < 0) \<Longrightarrow> xs \<noteq> [] \<Longrightarrow> 0 \<le> l \<Longrightarrow>
     fst (initial_sums xs (g, l)) = g \<and> 0 < snd (initial_sums xs (g, l))"
proof (induction xs arbitrary: l)
  case Nil
  then show ?case by simp
next
  case (Cons c xs)
  from Cons.prems have c: "c < 0" by simp
  show ?case
  proof (cases xs)
    case Nil
    with c Cons.prems show ?thesis by simp
  next
    case (Cons d ds)
    have "0 \<le> l - c" using c Cons.prems(3) by simp
    moreover have "xs \<noteq> []" using Cons by simp
    ultimately have "fst (initial_sums xs (g, l - c)) = g \<and> 0 < snd (initial_sums xs (g, l - c))"
      using Cons.prems(1) by (intro Cons.IH) simp_all
    with c show ?thesis by simp
  qed
qed

lemma smoothing_gains:
  "0 < period \<Longrightarrow> (\<And>c. c \<in> set xs \<Longrightarrow> 0 < c) \<Longrightarrow>
     \<exists>g'. smoothing period xs (g, 0) = Inr (g', 0)"
proof (induction xs arbitrary: g)
  case Nil
  then show ?case by simp
next
  case (Cons c xs)
  from Cons.prems have c: "0 < c" by simp
  have "smoothing period (c # xs) (g, 0) =
      smoothing period xs ((g * (real period - 1) + c) / real period, 0)"
    using c Cons.prems(1) by (simp add: js_div_def)
  with Cons.IH [OF Cons.prems(1)] Cons.prems(2) show ?case by simp
qed

lemma smoothing_losses:
  "0 < period \<Longrightarrow> (\<And>c. c \<in> set xs \<Longrightarrow> c < 0) \<Longrightarrow> 0 < l \<Longrightarrow>
     \<exists>l'. smoothing period xs (0, l) = Inr (0, l') \<and> 0 < l'"
proof (induction xs arbitrary: l)
  case Nil
  then show ?case by simp
next
  case (Cons c xs)
  let ?p = "real period"
  from Cons.prems have c: "c < 0" and p: "1 \<le> ?p" by simp_all
  have "0 \<le> l * (?p - 1)" using p Cons.prems(3) by simp
  with c have "0 < l * (?p - 1) + - c" by linarith
  with p have l: "0 < (l * (?p - 1) + - c) / ?p" by simp
  have "smoothing period (c # xs) (0, l) = smoothing period xs (0, (l * (?p - 1) + - c) / ?p)"
    using c p by (simp add: js_div_def)
  with Cons.IH [OF Cons.prems(1) _ l] Cons.prems(2) show ?case by simp
qed

lemma wilderRSI_increasing:
  assumes "0 < period" "period + 1 \<le> length closes" "sorted_wrt (<) closes"
  shows "wilderRSI closes period = Inr (Some 100)"
proof -
  have pos: "\<And>c. c \<in> set (changes closes) \<Longrightarrow> 0 < c"
    using assms(3) by (rule changes_increasing)
  obtain gs ls where s: "initial_sums (take period (changes closes)) (0, 0) = (gs, ls)"
    by (cases "initial_sums (take period (changes closes)) (0, 0)")
  have "snd (initial_sums (take period (changes closes)) (0, 0)) = 0"
    by (rule initial_sums_gains) (auto dest: in_set_takeD pos)
  with s have ls: "ls = 0" by simp
  obtain g' where "smoothing period (drop period (changes closes)) (gs / real period, 0) = Inr (g', 0)"
    using smoothing_gains [OF assms(1), of "drop period (changes closes)"]
    by (auto dest: in_set_dropD pos)
  then have "wilder_averages closes period = Inr (g', 0)"
    using assms(1) s ls by (simp add: wilder_averages_def js_div_def)
  then show ?thesis using assms(2) by (simp add: wilderRSI_def)
qed

lemma toFixed2_0: "toFixed2 0 = 0"
  by (simp add: toFixed2_def)

lemma wilderRSI_decreasing:
  assumes "0 < period" "period + 1 \<le> length closes" "sorted_wrt (>) closes"
  shows "wilderRSI closes period = Inr (Some 0)"
proof -
  have neg: "\<And>c. c \<in> set (changes closes) \<Longrightarrow> c < 0"
    using assms(3) by (rule changes_decreasing)
  obtain gs ls where s: "initial_sums (take period (changes closes)) (0, 0) = (gs, ls)"
    by (cases "initial_sums (take period (changes closes)) (0, 0)")
  have "take period (changes closes) \<noteq> []"
    using assms(1,2) by (simp add: length_changes flip: length_0_conv)
  then have "fst (initial_sums (take period (changes closes)) (0, 0)) = 0 \<and>
      0 < snd (initial_sums (take period (changes closes)) (0, 0))"
    by (intro initial_sums_losses) (auto dest: in_set_takeD neg)
  with s have gs: "gs = 0" and ls: "0 < ls" by simp_all
  then have "0 < ls / real period" using assms(1) by simp
  from smoothing_losses [OF assms(1) _ this, of "drop period (changes closes)"]
  obtain l' where "smoothing period (drop period (changes closes)) (0, ls / real period) = Inr (0, l')" "0 < l'"
    by (auto dest: in_set_dropD neg)
  then have "wilder_averages closes period = Inr (0, l')"
    using assms(1) s gs by (simp add: wilder_averages_def js_div_def)
  then show ?thesis using assms(2) \<open>0 < l'\<close> by (simp add: wilderRSI_def js_div_def toFixed2_0)
qed



text \<open>
  C8. With the default period 14, a strictly increasing sequence of at least 15 closes has
  \<open>wilderRSI\<close> exactly \<open>100\<close>, and a strictly decreasing one exactly \<open>0\<close>, a number and not
  \<open>null\<close>.
\<close>

theorem wilderRSI_monotone_closes:
  assumes "15 \<le> length closes"
  shows "(sorted_wrt (<) closes \<longrightarrow> wilderRSI closes 14 = Inr (Some 100))
    \<and> (sorted_wrt (>) closes \<longrightarrow> wilderRSI closes 14 = Inr (Some 0))"
  using assms wilderRSI_increasing [of 14 closes] wilderRSI_decreasing [of 14 closes]
  by simp

theorem wilderRSI_monotone_closes_witness:
  "15 \<le> length [1, 2, 3, 4, 5, 6, 7, 8, 9, 10, 11, 12, 13, 14, 15 :: real]
   \<and> sorted_wrt (<) [1, 2, 3, 4, 5, 6, 7, 8, 9, 10, 11, 12, 13, 14, 15 :: real]
   \<and> wilderRSI [1, 2, 3, 4, 5, 6, 7, 8, 9, 10, 11, 12, 13, 14, 15] 14 = Inr (Some 100)
   \<and> sorted_wrt (>) [15, 14, 13, 12, 11, 10, 9, 8, 7, 6, 5, 4, 3, 2, 1 :: real]
   \<and> wilderRSI [15, 14, 13, 12, 11, 10, 9, 8, 7, 6, 5, 4, 3, 2, 1] 14 = Inr (Some 0)"
  using wilderRSI_monotone_closes [of "[1, 2, 3, 4, 5, 6, 7, 8, 9, 10, 11, 12, 13, 14, 15]"]
    wilderRSI_monotone_closes [of "[15, 14, 13, 12, 11, 10, 9, 8, 7, 6, 5, 4, 3, 2, 1]"]
  by simp

section \<open>Properties of the candle history\<close>

















section \<open>Properties of the reconnect schedule\<close>

lemma reconnect_delay_le:
  "jsmap_size (reconnectTimeouts m) \<le> 2 \<Longrightarrow> reconnect_delay m \<le> 4000"
proof -
  assume "jsmap_size (reconnectTimeouts m) \<le> 2"
  then have "(2::nat) ^ jsmap_size (reconnectTimeouts m) \<le> 2 ^ 2"
    by (intro power_increasing) simp_all
  then show ?thesis by (simp add: reconnect_delay_def initialReconnectDelay_def)
qed

lemma scheduled_delays_append:
  "scheduled_delays (xs @ ys) = scheduled_delays xs @ scheduled_delays ys"
  by (induction xs rule: scheduled_delays.induct) simp_all

lemma jsmap_set_keys: "fst ` set (jsmap_set k v m) = insert k (fst ` set m)"
proof (induction m)
  case Nil
  show ?case by simp
next
  case (Cons kv m)
  obtain k' v' where kv: "kv = (k', v')" by (cases kv)
  show ?case
  proof (cases "k' = k")
    case True
    with kv show ?thesis by simp
  next
    case False
    with kv Cons.IH show ?thesis by (simp add: insert_commute)
  qed
qed

lemma jsmap_set_distinct: "distinct (map fst m) \<Longrightarrow> distinct (map fst (jsmap_set k v m))"
proof (induction m)
  case Nil
  show ?case by simp
next
  case (Cons kv m)
  obtain k' v' where kv: "kv = (k', v')" by (cases kv)
  show ?case
  proof (cases "k' = k")
    case True
    with Cons.prems kv show ?thesis by simp
  next
    case False
    from Cons.prems kv have "k' \<notin> fst ` set m" "distinct (map fst m)" by simp_all
    with False Cons.IH kv show ?thesis by (simp add: jsmap_set_keys)
  qed
qed

lemma jsmap_delete_keys: "fst ` set (jsmap_delete k m) \<subseteq> fst ` set m"
  by (auto simp: jsmap_delete_def)

lemma jsmap_delete_distinct: "distinct (map fst m) \<Longrightarrow> distinct (map fst (jsmap_delete k m))"
  by (simp add: jsmap_delete_def distinct_map_filter)

text \<open>
  The reconnect timers are keyed by the two ticker connections, so at most two are
  pending and no reconnect is ever scheduled later than after 4000 ms: the cap
  \<open>maxReconnectDelay\<close> is out of reach.
\<close>

lemma pending_timers_le_2:
  assumes "distinct (map fst (reconnectTimeouts m))"
    and "fst ` set (reconnectTimeouts m) \<subseteq> {''spot-ticker'', ''futures-ticker''}"
  shows "jsmap_size (reconnectTimeouts m) \<le> 2"
proof -
  have "jsmap_size (reconnectTimeouts m) = card (set (map fst (reconnectTimeouts m)))"
    using distinct_card [OF assms(1)] by (simp add: jsmap_size_def)
  also have "\<dots> \<le> card {''spot-ticker'', ''futures-ticker''}"
    using assms(2) by (intro card_mono) simp_all
  also have "\<dots> = 2" by simp
  finally show ?thesis .
qed

lemma ticker_event_invariant:
  assumes "connection e \<in> {''spot-ticker'', ''futures-ticker''}"
    and "distinct (map fst (reconnectTimeouts m))"
    and "fst ` set (reconnectTimeouts m) \<subseteq> {''spot-ticker'', ''futures-ticker''}"
    and "\<forall>d \<in> set (scheduled_delays (effects m)). d \<le> 4000"
  shows "distinct (map fst (reconnectTimeouts (ticker_event e m)))
    \<and> fst ` set (reconnectTimeouts (ticker_event e m)) \<subseteq> {''spot-ticker'', ''futures-ticker''}
    \<and> (\<forall>d \<in> set (scheduled_delays (effects (ticker_event e m))). d \<le> 4000)"
proof (cases e)
  case (Opened type)
  show ?thesis
  proof (cases "jsmap_get (reconnectTimeouts m) type")
    case None
    with Opened assms show ?thesis by (simp add: clearReconnectTimeout_def)
  next
    case (Some timeout)
    have "fst ` set (jsmap_delete type (reconnectTimeouts m)) \<subseteq> {''spot-ticker'', ''futures-ticker''}"
      using jsmap_delete_keys [of type "reconnectTimeouts m"] assms(3) by blast
    with Some Opened assms(2,4) show ?thesis
      by (simp add: clearReconnectTimeout_def do_effect_def Let_def jsmap_delete_distinct
          scheduled_delays_append)
  qed
next
  case (Closed type)
  have "reconnect_delay m \<le> 4000"
    using assms(2,3) by (intro reconnect_delay_le pending_timers_le_2)
  with Closed assms show ?thesis
    by (simp add: scheduleReconnect_def do_effect_def Let_def jsmap_set_distinct
        jsmap_set_keys scheduled_delays_append)
next
  case (Timer_fired type)
  with assms show ?thesis
    by (simp add: connectSpotTicker_def connectFuturesTicker_def do_effect_def
        scheduled_delays_append)
qed

lemma reconnect_delays_le_4000:
  assumes "\<forall>e \<in> set events. connection e \<in> {''spot-ticker'', ''futures-ticker''}"
    and "distinct (map fst (reconnectTimeouts m))"
    and "fst ` set (reconnectTimeouts m) \<subseteq> {''spot-ticker'', ''futures-ticker''}"
    and "\<forall>d \<in> set (scheduled_delays (effects m)). d \<le> 4000"
  shows "\<forall>d \<in> set (scheduled_delays (effects (fold ticker_event events m))). d \<le> 4000"
  using assms
proof (induction events arbitrary: m)
  case Nil
  then show ?case by simp
next
  case (Cons e events)
  from Cons.prems(1) have e: "connection e \<in> {''spot-ticker'', ''futures-ticker''}"
    and es: "\<forall>e \<in> set events. connection e \<in> {''spot-ticker'', ''futures-ticker''}"
    by simp_all
  from ticker_event_invariant [OF e Cons.prems(2,3,4)]
  show ?case using Cons.IH [OF es, of "ticker_event e m"] by simp
qed

lemma reconnect_delays_started:
  assumes "\<forall>e \<in> set events. connection e \<in> {''spot-ticker'', ''futures-ticker''}"
  shows "\<forall>d \<in> set (scheduled_delays (effects (fold ticker_event events started))). d \<le> 4000"
  using assms by (rule reconnect_delays_le_4000) (simp_all add: started_fields)

text \<open>
  C1. The claim: after \<open>N\<close> consecutive failed opens of one ticker connection the next
  reconnect is scheduled after \<open>min (1000 * 2 ^ N) 30000\<close> ms, whatever the other
  connection does. The code takes the number of entries of \<open>reconnectTimeouts\<close> for the
  exponent: the spot connection that closes and then fails to reopen twice is rescheduled
  after 1000, 2000 and again 2000 ms (not 4000), and its first reconnect is scheduled
  after 2000 ms (not 1000) when the futures connection has a reconnect pending.
\<close>

theorem reconnect_delay_counts_pending_timers:
  "scheduled_delays (effects (fold ticker_event
     [Closed ''spot-ticker'', Timer_fired ''spot-ticker'', Closed ''spot-ticker'',
      Timer_fired ''spot-ticker'', Closed ''spot-ticker''] started)) = [1000, 2000, 2000]
   \<and> scheduled_delays (effects (fold ticker_event
     [Closed ''futures-ticker'', Closed ''spot-ticker''] started)) = [1000, 2000]"
  by (simp add: started_fields scheduleReconnect_def reconnect_delay_def do_effect_def
      connectSpotTicker_def jsmap_size_def initialReconnectDelay_def maxReconnectDelay_def
      Let_def)

section \<open>Properties of the rebalancer\<close>


lemma fold_jsset_add_set: "set (fold jsset_add xs acc) = set acc \<union> set xs"
  by (induction xs arbitrary: acc) (auto simp: jsset_add_def)


lemma set_new_Set: "set (new_Set xs) = set xs"
  by (simp add: new_Set_def fold_jsset_add_set)






















section \<open>Properties of the snapshot queries\<close>

lemma calculateRSIViaREST_frame:
  "\<exists>H. calculateRSIViaREST env s m = m\<lparr>klineHistory := H\<rparr>"
  by (simp add: calculateRSIViaREST_def) blast

lemma update_coin_frame:
  "\<exists>H c. update_coin env coin m = m\<lparr>klineHistory := H, heap := (heap m)(coin := c)\<rparr>
     \<and> ticker_fields c = ticker_fields (heap m coin)"
proof -
  obtain H where H: "calculateRSIViaREST env (symbol (heap m coin)) m = m\<lparr>klineHistory := H\<rparr>"
    using calculateRSIViaREST_frame by blast
  obtain a b c where t: "getRSIForSymbol (m\<lparr>klineHistory := H\<rparr>) (symbol (heap m coin))
      (Some (price (heap m coin))) = (a, b, c)"
    by (cases "getRSIForSymbol (m\<lparr>klineHistory := H\<rparr>) (symbol (heap m coin))
      (Some (price (heap m coin)))")
  have "update_coin env coin m =
      m\<lparr>klineHistory := H,
        heap := (heap m)(coin := (heap m coin)\<lparr>rsi1h := a, rsi4h := b, rsi1d := c,
                                               signal := getRSISignal c\<rparr>)\<rparr>"
    by (simp add: update_coin_def H t Let_def)
  moreover have "ticker_fields ((heap m coin)\<lparr>rsi1h := a, rsi4h := b, rsi1d := c,
      signal := getRSISignal c\<rparr>) = ticker_fields (heap m coin)"
    by (simp add: ticker_fields_def)
  ultimately show ?thesis by blast
qed

lemma fold_update_coin_frame:
  "lifecycle (fold (update_coin env) coins m) = lifecycle m
   \<and> spotData (fold (update_coin env) coins m) = spotData m
   \<and> futuresData (fold (update_coin env) coins m) = futuresData m
   \<and> (\<forall>r. ticker_fields (heap (fold (update_coin env) coins m) r) = ticker_fields (heap m r))
   \<and> (\<forall>r. r \<notin> set coins \<longrightarrow> heap (fold (update_coin env) coins m) r = heap m r)"
proof (induction coins arbitrary: m)
  case Nil
  show ?case by simp
next
  case (Cons coin coins)
  obtain H c where u: "update_coin env coin m = m\<lparr>klineHistory := H, heap := (heap m)(coin := c)\<rparr>"
    and c: "ticker_fields c = ticker_fields (heap m coin)"
    using update_coin_frame by blast
  show ?case
    using Cons.IH [of "update_coin env coin m"] c
    by (simp add: u lifecycle_def)
qed

lemma ensureRSIForCoins_frame:
  "lifecycle (ensureRSIForCoins env coins m) = lifecycle m
   \<and> spotData (ensureRSIForCoins env coins m) = spotData m
   \<and> futuresData (ensureRSIForCoins env coins m) = futuresData m
   \<and> (\<forall>r. ticker_fields (heap (ensureRSIForCoins env coins m) r) = ticker_fields (heap m r))
   \<and> (\<forall>r. r \<notin> set coins \<or> \<not> needs_rsi (heap m r) \<longrightarrow>
          heap (ensureRSIForCoins env coins m) r = heap m r)"
proof -
  let ?need = "filter (\<lambda>coin. rsi1h (heap m coin) = None \<or> rsi4h (heap m coin) = None
                              \<or> rsi1d (heap m coin) = None) coins"
  have e: "ensureRSIForCoins env coins m = fold (update_coin env) ?need m"
    by (cases "?need") (simp_all add: ensureRSIForCoins_def Let_def)
  have "\<And>r. r \<notin> set coins \<or> \<not> needs_rsi (heap m r) \<Longrightarrow> r \<notin> set ?need"
    by (auto simp: needs_rsi_def)
  then show ?thesis
    using fold_update_coin_frame [of env ?need m] unfolding e by blast
qed

lemma ensureRSIForCoins_none_needed:
  "(\<And>r. r \<in> set coins \<Longrightarrow> \<not> needs_rsi (heap m r)) \<Longrightarrow> ensureRSIForCoins env coins m = m"
proof -
  assume a: "\<And>r. r \<in> set coins \<Longrightarrow> \<not> needs_rsi (heap m r)"
  have "filter (\<lambda>coin. rsi1h (heap m coin) = None \<or> rsi4h (heap m coin) = None
                              \<or> rsi1d (heap m coin) = None) coins = []"
    using a by (auto simp: needs_rsi_def filter_empty_conv)
  then show ?thesis by (simp add: ensureRSIForCoins_def)
qed

lemma initialize_stores:
  "heap (initialize m) = heap m \<and> spotData (initialize m) = spotData m
   \<and> futuresData (initialize m) = futuresData m \<and> klineHistory (initialize m) = klineHistory m
   \<and> initialized (initialize m)"
  by (simp add: initialize_def startVolumeMonitoring_def connectFuturesTicker_def
      connectSpotTicker_def do_effect_def Let_def)

lemma slice_0_take:
  "slice 0 e xs = take (if e < 0 then nat (int (length xs) + e) else nat e) xs"
  by (simp add: slice_def min_def)

lemma sorted_sort_by_volume:
  "sorted_wrt (\<lambda>a b. volume24h (h a) \<ge> volume24h (h b)) (sort_by_volume h xs)"
proof -
  have "sorted (map (\<lambda>r. - volume24h (h r)) (sort_by_volume h xs))"
    unfolding sort_by_volume_def by (rule sorted_sort_key)
  then show ?thesis by (simp add: sorted_map)
qed

lemma sort_by_volume_stable:
  "filter (\<lambda>r. volume24h (h r) = v) (sort_by_volume h xs) = filter (\<lambda>r. volume24h (h r) = v) xs"
proof -
  have "filter (\<lambda>r. - volume24h (h r) = - v) (sort_by_volume h xs)
      = filter (\<lambda>r. - volume24h (h r) = - v) xs"
    unfolding sort_by_volume_def by (rule sort_key_stable)
  then show ?thesis by simp
qed

lemma prefix_filter_take: "prefix (filter P (take n xs)) (filter P xs)"
proof -
  have "filter P xs = filter P (take n xs) @ filter P (drop n xs)"
    by (metis append_take_drop_id filter_append)
  then show ?thesis by (rule prefixI)
qed

text \<open>The array a query takes from a data map, before the fallback runs.\<close>

lemma query_array:
  assumes res_def: "res = slice 0 limit (sort_by_volume h vals)"
  shows "sorted_wrt (\<lambda>a b. volume24h (h a) \<ge> volume24h (h b)) res"
    and "prefix (filter (\<lambda>r. volume24h (h r) = v) res) (filter (\<lambda>r. volume24h (h r) = v) vals)"
    and "0 \<le> limit \<Longrightarrow> length res = min (nat limit) (length vals)"
    and "limit < 0 \<Longrightarrow> length res = length vals - nat (- limit)"
    and "set res \<subseteq> set vals"
proof -
  show "sorted_wrt (\<lambda>a b. volume24h (h a) \<ge> volume24h (h b)) res"
    unfolding res_def slice_0_take by (intro sorted_wrt_take sorted_sort_by_volume)
  have "prefix (filter (\<lambda>r. volume24h (h r) = v) res)
      (filter (\<lambda>r. volume24h (h r) = v) (sort_by_volume h vals))"
    unfolding res_def slice_0_take by (rule prefix_filter_take)
  then show "prefix (filter (\<lambda>r. volume24h (h r) = v) res) (filter (\<lambda>r. volume24h (h r) = v) vals)"
    by (simp add: sort_by_volume_stable)
  show "0 \<le> limit \<Longrightarrow> length res = min (nat limit) (length vals)"
    by (simp add: res_def slice_0_take sort_by_volume_def min.commute)
  show "limit < 0 \<Longrightarrow> length res = length vals - nat (- limit)"
    by (simp add: res_def slice_0_take sort_by_volume_def)
  have "set res \<subseteq> set (sort_by_volume h vals)"
    unfolding res_def slice_0_take by (rule set_take_subset)
  then show "set res \<subseteq> set vals" by (simp add: sort_by_volume_def)
qed

lemma getSpotData_eq:
  "getSpotData env limit m =
     (slice 0 limit (sort_by_volume (heap m) (jsmap_values (spotData m))),
      ensureRSIForCoins env (slice 0 limit (sort_by_volume (heap m) (jsmap_values (spotData m))))
        (if initialized m then m else initialize m))"
  by (simp add: getSpotData_def Let_def initialize_stores)

lemma getFuturesData_eq:
  "getFuturesData env limit m =
     (slice 0 limit (sort_by_volume (heap m) (jsmap_values (futuresData m))),
      ensureRSIForCoins env (slice 0 limit (sort_by_volume (heap m) (jsmap_values (futuresData m))))
        (if initialized m then m else initialize m))"
  by (simp add: getFuturesData_def Let_def initialize_stores)

lemma volume_ticker_fields:
  "ticker_fields p = ticker_fields q \<Longrightarrow> volume24h p = volume24h q"
  by (simp add: ticker_fields_def)

lemma query_frame:
  assumes "m' = ensureRSIForCoins env coins (if initialized m then m else initialize m)"
  shows "spotData m' = spotData m" and "futuresData m' = futuresData m"
    and "ticker_fields (heap m' r) = ticker_fields (heap m r)"
    and "r \<notin> set coins \<or> \<not> needs_rsi (heap m r) \<Longrightarrow> heap m' r = heap m r"
    and "initialized m \<Longrightarrow> lifecycle m' = lifecycle m"
    and "\<not> initialized m \<Longrightarrow> lifecycle m' = lifecycle (initialize m)"
    and "initialized m'"
  using ensureRSIForCoins_frame [of env coins "if initialized m then m else initialize m"]
    initialize_stores [of m] assms
  by (auto simp: lifecycle_def)

lemma rest_interval_other: "x \<noteq> s \<Longrightarrow> rest_interval env s key hist x = hist x"
  by (simp add: rest_interval_def Let_def split: option.splits sum.splits)

lemma calculateRSIViaREST_other:
  "x \<noteq> s \<Longrightarrow> klineHistory (calculateRSIViaREST env s m) x = klineHistory m x"
  by (simp add: calculateRSIViaREST_def rest_interval_other)

lemma update_coin_history:
  "x \<noteq> symbol (heap m coin) \<Longrightarrow> klineHistory (update_coin env coin m) x = klineHistory m x"
proof -
  assume x: "x \<noteq> symbol (heap m coin)"
  have "klineHistory (update_coin env coin m) =
      klineHistory (calculateRSIViaREST env (symbol (heap m coin)) m)"
    by (simp add: update_coin_def Let_def split: prod.splits)
  with x show ?thesis by (simp add: calculateRSIViaREST_other)
qed

lemma symbol_ticker_fields: "ticker_fields p = ticker_fields q \<Longrightarrow> symbol p = symbol q"
  by (simp add: ticker_fields_def)

lemma fold_update_coin_history:
  "x \<notin> (\<lambda>r. symbol (heap m r)) ` set coins \<Longrightarrow>
     klineHistory (fold (update_coin env) coins m) x = klineHistory m x"
proof (induction coins arbitrary: m)
  case Nil
  show ?case by simp
next
  case (Cons coin coins)
  let ?m1 = "update_coin env coin m"
  have same: "\<And>r. symbol (heap ?m1 r) = symbol (heap m r)"
    using fold_update_coin_frame [of env "[coin]" m] by (auto dest: symbol_ticker_fields)
  from Cons.prems have "x \<notin> (\<lambda>r. symbol (heap ?m1 r)) ` set coins"
    by (simp add: same)
  then have "klineHistory (fold (update_coin env) coins ?m1) x = klineHistory ?m1 x"
    by (rule Cons.IH)
  moreover from Cons.prems have "klineHistory ?m1 x = klineHistory m x"
    by (simp add: update_coin_history)
  ultimately show ?case by simp
qed

lemma ensureRSIForCoins_history:
  assumes "x \<notin> (\<lambda>r. symbol (heap m r)) ` {r \<in> set coins. needs_rsi (heap m r)}"
  shows "klineHistory (ensureRSIForCoins env coins m) x = klineHistory m x"
proof -
  let ?need = "filter (\<lambda>coin. rsi1h (heap m coin) = None \<or> rsi4h (heap m coin) = None
                              \<or> rsi1d (heap m coin) = None) coins"
  have e: "ensureRSIForCoins env coins m = fold (update_coin env) ?need m"
    by (cases "?need") (simp_all add: ensureRSIForCoins_def Let_def)
  have "set ?need = {r \<in> set coins. needs_rsi (heap m r)}"
    by (auto simp: needs_rsi_def)
  with assms have "x \<notin> (\<lambda>r. symbol (heap m r)) ` set ?need" by simp
  then show ?thesis unfolding e by (rule fold_update_coin_history)
qed

lemma query_history:
  assumes "m' = ensureRSIForCoins env coins (if initialized m then m else initialize m)"
    and "x \<notin> (\<lambda>r. symbol (heap m r)) ` {r \<in> set coins. needs_rsi (heap m r)}"
  shows "klineHistory m' x = klineHistory m x"
  using ensureRSIForCoins_history [of x "if initialized m then m else initialize m" coins env]
    assms initialize_stores [of m]
  by (simp split: if_splits)

lemma query_pure:
  assumes "m' = ensureRSIForCoins env coins (if initialized m then m else initialize m)"
    and "initialized m" and "\<forall>r\<in>set coins. \<not> needs_rsi (heap m r)"
  shows "m' = m"
  using assms by (simp add: ensureRSIForCoins_none_needed)

text \<open>
  C6, as amended. The array that \<open>getSpotData\<close> or \<open>getFuturesData\<close> returns is sorted
  by 24h volume, largest first; entries of equal volume keep the insertion order of the
  data map (the sort is stable and compares volumes only; it does not look at the symbol);
  for a limit \<open>L \<ge> 0\<close> the array has \<open>min L n\<close> entries, \<open>n\<close> being the size of the data
  map, and for a negative limit it has \<open>n - |L|\<close> entries.
\<close>

theorem snapshot_query_order:
  "(getSpotData env limit m = (sortedData, m') \<longrightarrow>
      sorted_wrt (\<lambda>a b. volume24h (heap m' a) \<ge> volume24h (heap m' b)) sortedData
    \<and> (\<forall>v. prefix (filter (\<lambda>r. volume24h (heap m' r) = v) sortedData)
               (filter (\<lambda>r. volume24h (heap m' r) = v) (jsmap_values (spotData m'))))
    \<and> (0 \<le> limit \<longrightarrow> length sortedData = min (nat limit) (jsmap_size (spotData m')))
    \<and> (limit < 0 \<longrightarrow> length sortedData = jsmap_size (spotData m') - nat (- limit)))
   \<and> (getFuturesData env limit m = (sortedData, m') \<longrightarrow>
      sorted_wrt (\<lambda>a b. volume24h (heap m' a) \<ge> volume24h (heap m' b)) sortedData
    \<and> (\<forall>v. prefix (filter (\<lambda>r. volume24h (heap m' r) = v) sortedData)
               (filter (\<lambda>r. volume24h (heap m' r) = v) (jsmap_values (futuresData m'))))
    \<and> (0 \<le> limit \<longrightarrow> length sortedData = min (nat limit) (jsmap_size (futuresData m')))
    \<and> (limit < 0 \<longrightarrow> length sortedData = jsmap_size (futuresData m') - nat (- limit)))"
proof -
  have *: "sorted_wrt (\<lambda>a b. volume24h (heap m' a) \<ge> volume24h (heap m' b)) sortedData
    \<and> (\<forall>v. prefix (filter (\<lambda>r. volume24h (heap m' r) = v) sortedData)
               (filter (\<lambda>r. volume24h (heap m' r) = v) vals))
    \<and> (0 \<le> limit \<longrightarrow> length sortedData = min (nat limit) (jsmap_size dataMap))
    \<and> (limit < 0 \<longrightarrow> length sortedData = jsmap_size dataMap - nat (- limit))"
    if res: "sortedData = slice 0 limit (sort_by_volume (heap m) vals)"
      and m': "m' = ensureRSIForCoins env sortedData (if initialized m then m else initialize m)"
      and vals: "vals = jsmap_values dataMap"
    for vals and dataMap :: "(string \<times> ref) list"
  proof -
    have v: "\<And>r. volume24h (heap m' r) = volume24h (heap m r)"
      using query_frame(3) [OF m'] by (rule volume_ticker_fields)
    have "length vals = jsmap_size dataMap"
      by (simp add: vals jsmap_values_def jsmap_size_def)
    then show ?thesis
      using query_array(1-4) [OF res] by (simp add: v)
  qed
  show ?thesis
    using * [of "jsmap_values (spotData m)" "spotData m"]
      * [of "jsmap_values (futuresData m)" "futuresData m"]
      query_frame(1,2) [of m' env sortedData m]
    by (auto simp: getSpotData_eq getFuturesData_eq)
qed

lemma getSpotData_tied:
  "getSpotData offline 50 tied_store = ([0, 1, 2], tied_store)"
  "getSpotData offline (- 1) tied_store = ([0, 1], tied_store)"
  "getFuturesData offline 50 tied_store = ([], tied_store)"
  by (simp_all add: getSpotData_eq getFuturesData_eq tied_store_def started_fields
      sort_by_volume_def jsmap_values_def slice_def rated_def pair_of_def blank_pair_def
      ensureRSIForCoins_def)

lemma heap_tied:
  "heap tied_store 0 = rated ''BUSDT'' 1" "heap tied_store 1 = rated ''AUSDT'' 1"
  "heap tied_store (Suc 0) = rated ''AUSDT'' 1" "heap tied_store 2 = rated ''CUSDT'' 0"
  "spotData tied_store = [(''BUSDT'', 0), (''AUSDT'', 1), (''CUSDT'', 2)]"
  "futuresData tied_store = []"
  by (simp_all add: tied_store_def started_fields)

text \<open>
  The claim as stated fails: with \<open>BUSDT\<close> inserted before \<open>AUSDT\<close> at equal volume the
  query returns \<open>BUSDT\<close> first, against symbol-ascending order; and with limit \<open>-1\<close> it
  returns two of three entries, more than the limit.
\<close>

theorem snapshot_query_order_counterexample:
  "map (\<lambda>r. symbol (heap (snd (getSpotData offline 50 tied_store)) r))
       (fst (getSpotData offline 50 tied_store)) = [''BUSDT'', ''AUSDT'', ''CUSDT'']
   \<and> map (\<lambda>r. volume24h (heap (snd (getSpotData offline 50 tied_store)) r))
       (fst (getSpotData offline 50 tied_store)) = [1, 1, 0]
   \<and> \<not> sorted_wrt spec_list_order
         (map (heap (snd (getSpotData offline 50 tied_store)))
            (fst (getSpotData offline 50 tied_store)))
   \<and> \<not> int (length (fst (getSpotData offline (- 1) tied_store))) \<le> - 1"
  by (simp add: getSpotData_tied heap_tied spec_list_order_def rated_def pair_of_def
      blank_pair_def)

theorem snapshot_query_order_witness:
  "getSpotData offline 50 tied_store = ([0, 1, 2], tied_store)
   \<and> sorted_wrt (\<lambda>a b. volume24h (heap tied_store a) \<ge> volume24h (heap tied_store b)) [0, 1, 2]
   \<and> prefix (filter (\<lambda>r. volume24h (heap tied_store r) = 1) [0, 1, 2])
        (filter (\<lambda>r. volume24h (heap tied_store r) = 1) (jsmap_values (spotData tied_store)))
   \<and> (0::int) \<le> 50
   \<and> length [0, 1, 2 :: ref] = min (nat 50) (jsmap_size (spotData tied_store))
   \<and> getSpotData offline (- 1) tied_store = ([0, 1], tied_store)
   \<and> (- 1 :: int) < 0
   \<and> length [0, 1 :: ref] = jsmap_size (spotData tied_store) - nat (- (- 1))
   \<and> getFuturesData offline 50 tied_store = ([], tied_store)
   \<and> length ([] :: ref list) = min (nat 50) (jsmap_size (futuresData tied_store))"
  using snapshot_query_order [of offline 50 tied_store "[0, 1, 2]" tied_store]
    snapshot_query_order [of offline "- 1" tied_store "[0, 1]" tied_store]
    snapshot_query_order [of offline 50 tied_store "[]" tied_store]
  by (simp add: getSpotData_tied heap_tied jsmap_size_def jsmap_values_def rated_def
      pair_of_def blank_pair_def)

text \<open>
  C9, as amended. A call of \<open>getSpotData\<close> or \<open>getFuturesData\<close> leaves both data maps as
  they are (the same symbols, in the same order, holding the same objects), and leaves
  the ticker fields of every object as they are. It rewrites nothing but the RSI values
  and the signal of returned entries that lack an RSI value, and the candle history of
  the symbols of those entries. It leaves the life-cycle state as it is when the manager
  is initialized, and initializes the manager otherwise. When the manager is initialized
  and no returned entry lacks an RSI value, the call changes nothing. The returned
  entries are the objects of the data map themselves.
\<close>

theorem snapshot_query_writes:
  "(getSpotData env limit m = (sortedData, m') \<or> getFuturesData env limit m = (sortedData, m') \<longrightarrow>
      spotData m' = spotData m \<and> futuresData m' = futuresData m
    \<and> (\<forall>r. ticker_fields (heap m' r) = ticker_fields (heap m r))
    \<and> (\<forall>r. r \<notin> set sortedData \<or> \<not> needs_rsi (heap m r) \<longrightarrow> heap m' r = heap m r)
    \<and> (\<forall>x. x \<notin> (\<lambda>r. symbol (heap m r)) ` {r \<in> set sortedData. needs_rsi (heap m r)} \<longrightarrow>
          klineHistory m' x = klineHistory m x)
    \<and> (initialized m \<longrightarrow> lifecycle m' = lifecycle m)
    \<and> (\<not> initialized m \<longrightarrow> lifecycle m' = lifecycle (initialize m))
    \<and> (initialized m \<and> (\<forall>r\<in>set sortedData. \<not> needs_rsi (heap m r)) \<longrightarrow> m' = m))
   \<and> (getSpotData env limit m = (sortedData, m') \<longrightarrow>
        set sortedData \<subseteq> set (jsmap_values (spotData m')))
   \<and> (getFuturesData env limit m = (sortedData, m') \<longrightarrow>
        set sortedData \<subseteq> set (jsmap_values (futuresData m')))"
proof -
  have *: "spotData m' = spotData m \<and> futuresData m' = futuresData m
    \<and> (\<forall>r. ticker_fields (heap m' r) = ticker_fields (heap m r))
    \<and> (\<forall>r. r \<notin> set sortedData \<or> \<not> needs_rsi (heap m r) \<longrightarrow> heap m' r = heap m r)
    \<and> (\<forall>x. x \<notin> (\<lambda>r. symbol (heap m r)) ` {r \<in> set sortedData. needs_rsi (heap m r)} \<longrightarrow>
          klineHistory m' x = klineHistory m x)
    \<and> (initialized m \<longrightarrow> lifecycle m' = lifecycle m)
    \<and> (\<not> initialized m \<longrightarrow> lifecycle m' = lifecycle (initialize m))
    \<and> (initialized m \<and> (\<forall>r\<in>set sortedData. \<not> needs_rsi (heap m r)) \<longrightarrow> m' = m)"
    if m': "m' = ensureRSIForCoins env sortedData (if initialized m then m else initialize m)"
    using query_frame(1-6) [OF m'] query_history [OF m'] query_pure [OF m'] by blast
  have spot: "set sortedData \<subseteq> set (jsmap_values (spotData m'))"
    if "getSpotData env limit m = (sortedData, m')"
  proof -
    from that have res: "sortedData = slice 0 limit (sort_by_volume (heap m) (jsmap_values (spotData m)))"
      and m': "m' = ensureRSIForCoins env sortedData (if initialized m then m else initialize m)"
      by (auto simp: getSpotData_eq)
    from query_array(5) [OF res] query_frame(1) [OF m'] show ?thesis by simp
  qed
  have futures: "set sortedData \<subseteq> set (jsmap_values (futuresData m'))"
    if "getFuturesData env limit m = (sortedData, m')"
  proof -
    from that have res: "sortedData = slice 0 limit (sort_by_volume (heap m) (jsmap_values (futuresData m)))"
      and m': "m' = ensureRSIForCoins env sortedData (if initialized m then m else initialize m)"
      by (auto simp: getFuturesData_eq)
    from query_array(5) [OF res] query_frame(2) [OF m'] show ?thesis by simp
  qed
  have "getSpotData env limit m = (sortedData, m') \<or> getFuturesData env limit m = (sortedData, m')
      \<Longrightarrow> m' = ensureRSIForCoins env sortedData (if initialized m then m else initialize m)"
    by (auto simp: getSpotData_eq getFuturesData_eq)
  with * spot futures show ?thesis by blast
qed

lemma map_close_stamped: "map close (stamped env closes) = closes"
proof -
  have "map close (stamped env closes) = map snd (enumerate 0 closes)"
    by (simp add: stamped_def case_prod_unfold comp_def)
  then show ?thesis by (simp add: map_snd_enumerate)
qed

lemma length_stamped: "length (stamped env closes) = length closes"
  by (simp add: stamped_def)

lemma wilderRSI_rising:
  "wilderRSI [1, 2, 3, 4, 5, 6, 7, 8, 9, 10, 11, 12, 13, 14, 15] 14 = Inr (Some 100)"
  "wilderRSI [1, 2, 3, 4, 5, 6, 7, 8, 9, 10, 11, 12, 13, 14, 15, 16] 14 = Inr (Some 100)"
  by (rule wilderRSI_increasing; simp)+

lemma unrated_store_fields:
  "initialized unrated_store"
  "heap unrated_store 0 = (pair_of ''AUSDT'' 1)\<lparr>price := 16\<rparr>"
  "spotData unrated_store = [(''AUSDT'', 0)]"
  "klineHistory unrated_store = Map.empty"
  "stored unrated_store ''AUSDT'' ''1d'' = []"
  by (simp_all add: unrated_store_def started_fields stored_def)

lemma update_coin_unrated:
  "heap (update_coin rising 0 unrated_store) 0 =
     (pair_of ''AUSDT'' 1)\<lparr>price := 16, rsi1h := Some 100, rsi4h := Some 100, rsi1d := Some 100,
        signal := STRONG_SELL\<rparr>"
  "stored (update_coin rising 0 unrated_store) ''AUSDT'' ''1d'' =
     stamped rising [1, 2, 3, 4, 5, 6, 7, 8, 9, 10, 11, 12, 13, 14, 15]"
  by (simp_all add: update_coin_def calculateRSIViaREST_def rest_interval_def rising_def
      unrated_store_fields getRSIForSymbol_def interval_rsi_def
      map_close_stamped length_stamped wilderRSI_rising Let_def getRSISignal_Some stored_def
      pair_of_def blank_pair_def)

lemma getSpotData_unrated:
  "getSpotData rising 50 unrated_store = ([0], update_coin rising 0 unrated_store)"
  by (simp add: getSpotData_eq unrated_store_fields sort_by_volume_def
      jsmap_values_def slice_def ensureRSIForCoins_def pair_of_def blank_pair_def)

lemma new_manager_fields:
  "\<not> initialized new_manager" "spotData new_manager = []" "futuresData new_manager = []"
  "spotTickerWs new_manager = None"
  by (simp_all add: new_manager_def)

lemma getSpotData_new_manager:
  "getSpotData offline 50 new_manager = ([], started)"
  by (simp add: getSpotData_eq started_def new_manager_fields sort_by_volume_def
      jsmap_values_def slice_def ensureRSIForCoins_def)

text \<open>
  The claim as stated fails. A query on a manager that has not been initialized
  initializes it and opens the ticker sockets. A query on an initialized manager that
  holds an entry without RSI values seeds the candle history, rewrites the entry of the
  data map, and returns that very entry, so that an assignment to the returned entry
  changes what the data map holds.
\<close>

theorem snapshot_query_writes_counterexample:
  "\<not> initialized new_manager
   \<and> initialized (snd (getSpotData offline 50 new_manager))
   \<and> spotTickerWs new_manager = None
   \<and> spotTickerWs (snd (getSpotData offline 50 new_manager)) = Some (WebSocket spot_url)
   \<and> fst (getSpotData rising 50 unrated_store) = [0]
   \<and> jsmap_get (spotData (snd (getSpotData rising 50 unrated_store))) ''AUSDT'' = Some 0
   \<and> stored unrated_store ''AUSDT'' ''1d'' = []
   \<and> length (stored (snd (getSpotData rising 50 unrated_store)) ''AUSDT'' ''1d'') = 15
   \<and> rsi1d (heap unrated_store 0) = None
   \<and> rsi1d (heap (snd (getSpotData rising 50 unrated_store)) 0) = Some 100
   \<and> signal (heap (snd (getSpotData rising 50 unrated_store)) 0) = STRONG_SELL
   \<and> spot_entry (snd (getSpotData rising 50 unrated_store)) ''AUSDT''
        \<noteq> spot_entry unrated_store ''AUSDT''
   \<and> spot_entry (assign_price 0 0 (snd (getSpotData rising 50 unrated_store))) ''AUSDT''
        \<noteq> spot_entry (snd (getSpotData rising 50 unrated_store)) ''AUSDT''"
proof -
  let ?m = "update_coin rising 0 unrated_store"
  have fr: "?m = ensureRSIForCoins rising [0]
      (if initialized unrated_store then unrated_store else initialize unrated_store)"
    by (simp add: ensureRSIForCoins_def unrated_store_fields pair_of_def blank_pair_def)
  have 1: "spotData ?m = [(''AUSDT'', 0)]"
    using query_frame(1) [OF fr] by (simp add: unrated_store_fields)
  have 2: "spotTickerWs started = Some (WebSocket spot_url)"
    by (simp add: started_def initialize_def new_manager_def startVolumeMonitoring_def
        connectFuturesTicker_def connectSpotTicker_def do_effect_def Let_def)
  show ?thesis
    by (simp add: getSpotData_unrated getSpotData_new_manager 1 2 started_fields
        new_manager_fields
        update_coin_unrated unrated_store_fields length_stamped
        spot_entry_def jsmap_get_def assign_price_def pair_of_def blank_pair_def)
qed

lemma tied_store_rated:
  "initialized tied_store" "\<not> needs_rsi (heap tied_store 0)"
  "\<not> needs_rsi (heap tied_store (Suc 0))" "\<not> needs_rsi (heap tied_store 2)"
  by (simp_all add: tied_store_def started_fields needs_rsi_def rated_def)

theorem snapshot_query_writes_witness:
  "getSpotData offline 50 tied_store = ([0, 1, 2], tied_store)
   \<and> getFuturesData offline 50 tied_store = ([], tied_store)
   \<and> initialized tied_store
   \<and> \<not> needs_rsi (heap tied_store 0) \<and> \<not> needs_rsi (heap tied_store 1)
   \<and> \<not> needs_rsi (heap tied_store 2)
   \<and> set [0, 1, 2] \<subseteq> set (jsmap_values (spotData tied_store))
   \<and> getSpotData rising 50 unrated_store = ([0], update_coin rising 0 unrated_store)
   \<and> initialized unrated_store
   \<and> lifecycle (update_coin rising 0 unrated_store) = lifecycle unrated_store
   \<and> ticker_fields (heap (update_coin rising 0 unrated_store) 0)
        = ticker_fields (heap unrated_store 0)
   \<and> getSpotData offline 50 new_manager = ([], started)
   \<and> \<not> initialized new_manager
   \<and> lifecycle started = lifecycle (initialize new_manager)"
  using snapshot_query_writes [of offline 50 tied_store "[0, 1, 2]" tied_store]
    snapshot_query_writes [of offline 50 tied_store "[]" tied_store]
    snapshot_query_writes [of rising 50 unrated_store "[0]" "update_coin rising 0 unrated_store"]
    snapshot_query_writes [of offline 50 new_manager "[]" started]
  by (simp add: getSpotData_tied getSpotData_unrated getSpotData_new_manager tied_store_rated
      unrated_store_fields heap_tied(5,6) jsmap_values_def new_manager_fields started_def)

end
